theory Spec2Isabelle
  imports Main "HOL-Library.Multiset"
begin

section \<open>Byte strings\<close>

text \<open>
  Go's \<^verbatim>\<open>[]byte\<close> and \<^verbatim>\<open>string\<close> are both sequences of bytes; they are modelled
  as \<^typ>\<open>string\<close> (a list of 8-bit characters). The functions below are the ones of the
  packages \<^verbatim>\<open>bytes\<close> and \<^verbatim>\<open>strings\<close> that \<^verbatim>\<open>main.go\<close> calls.
\<close>

type_synonym bytes = string

definition HasPrefix :: "string \<Rightarrow> string \<Rightarrow> bool" where
  "HasPrefix s p = (take (length p) s = p)"

definition HasSuffix :: "string \<Rightarrow> string \<Rightarrow> bool" where
  "HasSuffix s p = (length p \<le> length s \<and> drop (length s - length p) s = p)"

definition TrimPrefix :: "string \<Rightarrow> string \<Rightarrow> string" where
  "TrimPrefix s p = (if HasPrefix s p then drop (length p) s else s)"

definition TrimSuffix :: "string \<Rightarrow> string \<Rightarrow> string" where
  "TrimSuffix s p = (if HasSuffix s p then take (length s - length p) s else s)"

text \<open>\<^verbatim>\<open>Index(s, sep)\<close>: the index of the first instance of \<open>sep\<close> in \<open>s\<close>, or \<open>-1\<close>.\<close>

fun Index :: "string \<Rightarrow> string \<Rightarrow> int" where
  "Index [] sep = (if sep = [] then 0 else - 1)"
| "Index (c # s) sep =
     (if HasPrefix (c # s) sep then 0
      else (let r = Index s sep in if r = - 1 then - 1 else r + 1))"

definition Contains :: "string \<Rightarrow> string \<Rightarrow> bool" where
  "Contains s substr = (0 \<le> Index s substr)"

section \<open>Data model\<close>

text \<open>\<^verbatim>\<open>type Frontmatter struct { Title string; Date string }\<close>\<close>

record Frontmatter =
  fmTitle :: string
  fmDate :: string

text \<open>The zero value \<^verbatim>\<open>var fm Frontmatter\<close>.\<close>

definition zeroFrontmatter :: Frontmatter where
  "zeroFrontmatter = \<lparr>fmTitle = [], fmDate = []\<rparr>"

text \<open>
  An \<^verbatim>\<open>error\<close> value: the two sentinels of the directory walk, or any other error,
  represented by its message. \<open>None\<close> of type \<open>error option\<close> is \<^verbatim>\<open>nil\<close>.
\<close>

datatype error = SkipDir | SkipAll | Failure string

fun Error :: "error \<Rightarrow> string" where
  "Error SkipDir = ''skip this directory''"
| "Error SkipAll = ''skip everything and stop the walk''"
| "Error (Failure m) = m"

text \<open>
  \<^verbatim>\<open>yaml.Unmarshal(in, &fm)\<close> belongs to an external library: it receives the block and
  the destination struct, and gives back an error together with the destination as it has
  left it.
\<close>

type_synonym decoder = "bytes \<Rightarrow> Frontmatter \<Rightarrow> error option \<times> Frontmatter"

text \<open>A run-time panic of the Go program.\<close>

datatype panic = IndexOutOfRange | NilDereference

section \<open>parseFrontmatter\<close>

text \<open>
  \<^verbatim>\<open>func parseFrontmatter(content []byte) (Frontmatter, []byte)\<close>. The indexing
  \<^verbatim>\<open>yamlContent[0]\<close> panics on an empty slice; the error of \<^verbatim>\<open>yaml.Unmarshal\<close> is dropped.
\<close>

definition parseFrontmatter :: "decoder \<Rightarrow> bytes \<Rightarrow> panic + (Frontmatter \<times> bytes)" where
  "parseFrontmatter unmarshal content =
     (let fm = zeroFrontmatter in
      if \<not> HasPrefix content ''---'' then Inr (fm, content)
      else
        let rest = drop 3 content;
            endIndex = Index rest ''\<newline>---''
        in if endIndex = - 1 then Inr (fm, content)
           else
             (case take (nat endIndex) rest of
                [] \<Rightarrow> Inl IndexOutOfRange
              | y # ys \<Rightarrow>
                  let yamlContent = (if y = CHR ''\<newline>'' then ys else y # ys);
                      fm = snd (unmarshal yamlContent fm);
                      markdown = drop (nat (endIndex + 4)) rest;
                      markdown = (case markdown of
                                    [] \<Rightarrow> markdown
                                  | m # ms \<Rightarrow> if m = CHR ''\<newline>'' then ms else markdown)
                  in Inr (fm, markdown)))"

section \<open>URL and title derivation\<close>

text \<open>
  \<^verbatim>\<open>strings.ToLower\<close> on the ASCII letters. Bytes from \<open>0x80\<close> on are left as they
  are; no lower-cased non-ASCII character ends in the bytes \<^verbatim>\<open>.md\<close>, so the suffix test
  of the file discovery is not affected.
\<close>

definition toLowerByte :: "char \<Rightarrow> char" where
  "toLowerByte c =
     (let n = (of_char c :: nat) in if 65 \<le> n \<and> n \<le> 90 then char_of (n + 32) else c)"

definition ToLower :: "string \<Rightarrow> string" where
  "ToLower s = map toLowerByte s"

text \<open>The test of \<^verbatim>\<open>findMarkdownFiles\<close>: the path ends with \<^verbatim>\<open>.md\<close>, case-insensitively.\<close>

definition isMarkdown :: "string \<Rightarrow> bool" where
  "isMarkdown path = HasSuffix (ToLower path) ''.md''"

text \<open>
  \<^verbatim>\<open>func pathToURL(path string) string\<close>:
  \<^verbatim>\<open>url := strings.TrimPrefix(path, "content"); url = strings.TrimSuffix(url, ".md") + ".html"\<close>.
\<close>

definition pathToURL :: "string \<Rightarrow> string" where
  "pathToURL path =
     (let url = TrimPrefix path ''content'';
          url = TrimSuffix url ''.md'' @ ''.html''
      in url)"

text \<open>
  \<^verbatim>\<open>filepath.Base\<close> with the separator \<^verbatim>\<open>/\<close>: trailing slashes are stripped, the last
  element is returned; the empty path gives \<^verbatim>\<open>.\<close> and a path of slashes gives \<^verbatim>\<open>/\<close>.
\<close>

definition Base :: "string \<Rightarrow> string" where
  "Base path =
     (if path = [] then ''.''
      else
        let p = rev (dropWhile (\<lambda>c. c = CHR ''/'') (rev path));
            p = rev (takeWhile (\<lambda>c. c \<noteq> CHR ''/'') (rev p))
        in if p = [] then ''/'' else p)"

text \<open>
  \<^verbatim>\<open>strings.ReplaceAll(s, old, new)\<close> for the two calls of \<^verbatim>\<open>extractTitle\<close>, where
  \<open>old\<close> and \<open>new\<close> are one byte each.
\<close>

definition ReplaceAll :: "string \<Rightarrow> char \<Rightarrow> char \<Rightarrow> string" where
  "ReplaceAll s old new = map (\<lambda>c. if c = old then new else c) s"

text \<open>
  \<^verbatim>\<open>func extractTitle(path string) string\<close>. The title-casing \<^verbatim>\<open>strings.Title\<close> of the
  standard library works on Unicode characters and is taken as a parameter.
\<close>

definition extractTitle :: "(string \<Rightarrow> string) \<Rightarrow> string \<Rightarrow> string" where
  "extractTitle stringsTitle path =
     (let base = Base path;
          name = TrimSuffix base ''.md'';
          name = ReplaceAll name (CHR ''_'') (CHR '' '');
          name = ReplaceAll name (CHR ''-'') (CHR '' '')
      in stringsTitle name)"

section \<open>Dates\<close>

text \<open>
  A \<^verbatim>\<open>time.Time\<close> is an instant; the program only builds the zero value and midnights
  in UTC, so an instant is the number of seconds since the zero value of the type,
  January 1 of year 1, 00:00:00 UTC.
\<close>

type_synonym Time = int

definition zeroTime :: Time where
  "zeroTime = 0"

definition After :: "Time \<Rightarrow> Time \<Rightarrow> bool" where
  "After t u = (t > u)"


definition isLeap :: "int \<Rightarrow> bool" where
  "isLeap year = (year mod 4 = 0 \<and> (year mod 100 \<noteq> 0 \<or> year mod 400 = 0))"

definition daysIn :: "int \<Rightarrow> int \<Rightarrow> int" where
  "daysIn m year =
     (if m = 2 then (if isLeap year then 29 else 28)
      else if m = 4 \<or> m = 6 \<or> m = 9 \<or> m = 11 then 30 else 31)"

text \<open>Days of a non-leap year before the first of month \<open>m\<close>.\<close>

definition daysBefore :: "int \<Rightarrow> int" where
  "daysBefore m = [0, 31, 59, 90, 120, 151, 181, 212, 243, 273, 304, 334] ! nat (m - 1)"

text \<open>
  \<^verbatim>\<open>time.Date(year, month, day, 0, 0, 0, 0, time.UTC)\<close> for a month in \<open>1..12\<close> and a day of
  that month, in the proleptic Gregorian calendar (year 0 is a leap year and lies before
  the zero value).
\<close>

definition timeDate :: "int \<Rightarrow> int \<Rightarrow> int \<Rightarrow> Time" where
  "timeDate year month day =
     86400 * (365 * (year - 1) + (year - 1) div 4 - (year - 1) div 100 + (year - 1) div 400
              + daysBefore month + (if isLeap year \<and> 3 \<le> month then 1 else 0)
              + (day - 1))"

definition isDigit :: "char \<Rightarrow> bool" where
  "isDigit c = (let n = (of_char c :: nat) in 48 \<le> n \<and> n \<le> 57)"

definition digit :: "char \<Rightarrow> int" where
  "digit c = int (of_char c) - 48"

text \<open>
  \<^verbatim>\<open>time.Parse("2006-01-02", value)\<close> of the standard library: four digits, a hyphen, two
  digits, a hyphen, two digits and nothing else; the month must be in \<open>1..12\<close> and the day
  must exist in that month. Every failure returns the zero \<^verbatim>\<open>Time\<close> and an error.
\<close>

definition timeParse :: "string \<Rightarrow> Time \<times> error option" where
  "timeParse v =
     (case v of
        [y1, y2, y3, y4, s1, m1, m2, s2, d1, d2] \<Rightarrow>
          if list_all isDigit [y1, y2, y3, y4, m1, m2, d1, d2]
             \<and> s1 = CHR ''-'' \<and> s2 = CHR ''-''
          then
            let year = 1000 * digit y1 + 100 * digit y2 + 10 * digit y3 + digit y4;
                month = 10 * digit m1 + digit m2;
                day = 10 * digit d1 + digit d2
            in if month \<le> 0 \<or> 12 < month
               then (zeroTime, Some (Failure ''month out of range''))
               else if day < 1 \<or> daysIn month year < day
               then (zeroTime, Some (Failure ''day out of range''))
               else (timeDate year month day, None)
          else (zeroTime, Some (Failure ''cannot parse''))
      | _ \<Rightarrow> (zeroTime, Some (Failure ''cannot parse'')))"

section \<open>Pages and the environment of a build\<close>

text \<open>
  \<^verbatim>\<open>type Page struct { Path, URL, Title string; Date time.Time; Content template.HTML }\<close>
\<close>

record Page =
  Path :: string
  URL :: string
  Title :: string
  Date :: Time
  Content :: string

text \<open>
  A directory tree as \<^verbatim>\<open>filepath.WalkDir\<close> sees it: an entry that is not a directory,
  or a directory with the entries \<^verbatim>\<open>os.ReadDir\<close> returns for it (sorted by name) and the
  error of \<^verbatim>\<open>os.ReadDir\<close>, if any.
\<close>

datatype fsnode = FileNode | DirNode "(string \<times> fsnode) list" "error option"

text \<open>A parsed template, and the data a template is executed with.\<close>

type_synonym tmpl = string

datatype tmplData = PageData Page | PostsData "Page list"

text \<open>
  The calls the build makes on its surroundings, in order: lines printed and file-system
  operations, each with its result.
\<close>

datatype event =
    Println string
  | MkdirAll string "error option"
  | Create string "error option"
  | Execute tmpl tmplData string "error option"
  | WriteFile string bytes "error option"

type_synonym trace = "event list"

text \<open>
  What the program does not define itself: the external libraries (YAML decoder, Markdown
  converter, title casing, \<^verbatim>\<open>sort.Slice\<close>, \<^verbatim>\<open>filepath.Dir\<close>, templates) and the results
  of the operating system's calls.
\<close>

record env =
  yamlUnmarshal :: decoder
  goldmarkConvert :: "bytes \<Rightarrow> error + string"
  stringsTitle :: "string \<Rightarrow> string"
  sortSlice :: "(Page \<Rightarrow> Page \<Rightarrow> bool) \<Rightarrow> Page list \<Rightarrow> Page list"
  filepathDir :: "string \<Rightarrow> string"
  statNotExist :: "string \<Rightarrow> bool"
  lstat :: "string \<Rightarrow> error + fsnode"
  readFile :: "string \<Rightarrow> error + bytes"
  parseFiles :: "string \<Rightarrow> error + tmpl"
  mkdirAll :: "string \<Rightarrow> error option"
  create :: "string \<Rightarrow> error option"
  execute :: "tmpl \<Rightarrow> tmplData \<Rightarrow> error option"
  writeFile :: "string \<Rightarrow> bytes \<Rightarrow> error option"

text \<open>How a function of the program can fail: a returned error, or a panic.\<close>

datatype failure = Err error | Panic panic

section \<open>generateHtml\<close>

text \<open>The body of the loop of \<^verbatim>\<open>generateHtml\<close>, for one file.\<close>

definition loadPage :: "env \<Rightarrow> string \<Rightarrow> failure + Page" where
  "loadPage e file =
     (case readFile e file of
        Inl err \<Rightarrow> Inl (Err err)
      | Inr content \<Rightarrow>
          (case parseFrontmatter (yamlUnmarshal e) content of
             Inl p \<Rightarrow> Inl (Panic p)
           | Inr (fm, markdown) \<Rightarrow>
               (case goldmarkConvert e markdown of
                  Inl err \<Rightarrow> Inl (Err err)
                | Inr html \<Rightarrow>
                    let title = fmTitle fm;
                        title = (if title = [] then extractTitle (stringsTitle e) file else title);
                        date = zeroTime;
                        date = (if fmDate fm \<noteq> [] then fst (timeParse (fmDate fm)) else date)
                    in Inr \<lparr>Path = file, URL = pathToURL file, Title = title,
                            Date = date, Content = html\<rparr>)))"

fun generateHtml_loop :: "env \<Rightarrow> Page list \<Rightarrow> string list \<Rightarrow> failure + Page list" where
  "generateHtml_loop e pages [] = Inr pages"
| "generateHtml_loop e pages (file # files) =
     (case loadPage e file of
        Inl f \<Rightarrow> Inl f
      | Inr page \<Rightarrow> generateHtml_loop e (pages @ [page]) files)"

definition generateHtml :: "env \<Rightarrow> string list \<Rightarrow> failure + Page list" where
  "generateHtml e markdownFiles = generateHtml_loop e [] markdownFiles"

section \<open>File discovery\<close>

text \<open>
  The callback \<^verbatim>\<open>findMarkdownFiles\<close> passes to \<^verbatim>\<open>filepath.WalkDir\<close>. Its state is the
  slice \<^verbatim>\<open>files\<close> and what has been printed. The entry \<open>d\<close> is \<^verbatim>\<open>nil\<close> (\<open>None\<close>) or
  tells whether it is a directory.
\<close>

type_synonym walkState = "string list \<times> trace"

type_synonym WalkDirFunc =
  "string \<Rightarrow> bool option \<Rightarrow> error option \<Rightarrow> walkState \<Rightarrow> panic + (error option \<times> walkState)"

definition walkFn :: WalkDirFunc where
  "walkFn path d err st =
     (case err of
        Some e \<Rightarrow>
          Inr (None, (fst st,
                 snd st @ [Println (''Warning: could not access '' @ path @ '' - '' @ Error e)]))
      | None \<Rightarrow>
          (case d of
             None \<Rightarrow> Inl NilDereference
           | Some isDir \<Rightarrow>
               if isDir then Inr (None, st)
               else if HasSuffix (ToLower path) ''.md''
               then Inr (None, (fst st @ [path], snd st))
               else Inr (None, st)))"

text \<open>\<^verbatim>\<open>filepath.Join(path, name)\<close> for a clean path and an entry name.\<close>

definition Join :: "string \<Rightarrow> string \<Rightarrow> string" where
  "Join path name = path @ ''/'' @ name"

text \<open>
  \<^verbatim>\<open>filepath.WalkDir\<close> of the standard library. \<^verbatim>\<open>walkDir\<close> calls the function on the
  entry, reads a directory, reports a failed read by a second call with the error, and
  visits the entries that were read, in order. An error returned by the function stops the
  walk, except \<^verbatim>\<open>SkipDir\<close>, which skips the rest of the directory.
\<close>

fun walkDir :: "WalkDirFunc \<Rightarrow> string \<Rightarrow> fsnode \<Rightarrow> walkState \<Rightarrow> panic + (error option \<times> walkState)"
  and walkDirEntries ::
    "WalkDirFunc \<Rightarrow> string \<Rightarrow> (string \<times> fsnode) list \<Rightarrow> walkState
       \<Rightarrow> panic + (error option \<times> walkState)"
where
  "walkDir fn path FileNode st = fn path (Some False) None st"
| "walkDir fn path (DirNode dirs readErr) st =
     (case fn path (Some True) None st of
        Inl p \<Rightarrow> Inl p
      | Inr (Some e, st1) \<Rightarrow> Inr (if e = SkipDir then None else Some e, st1)
      | Inr (None, st1) \<Rightarrow>
          (case readErr of
             None \<Rightarrow> walkDirEntries fn path dirs st1
           | Some re \<Rightarrow>
               (case fn path (Some True) (Some re) st1 of
                  Inl p \<Rightarrow> Inl p
                | Inr (Some e, st2) \<Rightarrow> Inr (if e = SkipDir then None else Some e, st2)
                | Inr (None, st2) \<Rightarrow> walkDirEntries fn path dirs st2)))"
| "walkDirEntries fn path [] st = Inr (None, st)"
| "walkDirEntries fn path (d1 # rest) st =
     (case walkDir fn (Join path (fst d1)) (snd d1) st of
        Inl p \<Rightarrow> Inl p
      | Inr (Some e, st1) \<Rightarrow> if e = SkipDir then Inr (None, st1) else Inr (Some e, st1)
      | Inr (None, st1) \<Rightarrow> walkDirEntries fn path rest st1)"

definition WalkDir ::
  "env \<Rightarrow> string \<Rightarrow> WalkDirFunc \<Rightarrow> walkState \<Rightarrow> panic + (error option \<times> walkState)" where
  "WalkDir e root fn st =
     (case (case lstat e root of
              Inl err \<Rightarrow> fn root None (Some err) st
            | Inr info \<Rightarrow> walkDir fn root info st) of
        Inl p \<Rightarrow> Inl p
      | Inr (err, st1) \<Rightarrow>
          Inr (if err = Some SkipDir \<or> err = Some SkipAll then None else err, st1))"

text \<open>
  \<^verbatim>\<open>func findMarkdownFiles(root string) ([]string, error)\<close>, with what it prints added to
  the trace.
\<close>

definition findMarkdownFiles ::
  "env \<Rightarrow> string \<Rightarrow> trace \<Rightarrow> panic + (string list \<times> error option \<times> trace)" where
  "findMarkdownFiles e root tr =
     (case WalkDir e root walkFn ([], tr) of
        Inl p \<Rightarrow> Inl p
      | Inr (err, st) \<Rightarrow> Inr (fst st, err, snd st))"

text \<open>
  What the walk is expected to visit: the paths of all entries of the tree that are not
  directories, in the order of the walk, and the directories whose read failed.
\<close>

fun treeFiles :: "string \<Rightarrow> fsnode \<Rightarrow> string list"
  and treeFilesEntries :: "string \<Rightarrow> (string \<times> fsnode) list \<Rightarrow> string list"
where
  "treeFiles path FileNode = [path]"
| "treeFiles path (DirNode dirs readErr) = treeFilesEntries path dirs"
| "treeFilesEntries path [] = []"
| "treeFilesEntries path (d1 # rest) =
     treeFiles (Join path (fst d1)) (snd d1) @ treeFilesEntries path rest"

fun treeWarnings :: "string \<Rightarrow> fsnode \<Rightarrow> event list"
  and treeWarningsEntries :: "string \<Rightarrow> (string \<times> fsnode) list \<Rightarrow> event list"
where
  "treeWarnings path FileNode = []"
| "treeWarnings path (DirNode dirs readErr) =
     (case readErr of
        None \<Rightarrow> []
      | Some re \<Rightarrow> [Println (''Warning: could not access '' @ path @ '' - '' @ Error re)])
     @ treeWarningsEntries path dirs"
| "treeWarningsEntries path [] = []"
| "treeWarningsEntries path (d1 # rest) =
     treeWarnings (Join path (fst d1)) (snd d1) @ treeWarningsEntries path rest"

section \<open>The site assembler\<close>

text \<open>
  The classification loop of \<^verbatim>\<open>build\<close>. \<^verbatim>\<open>homePage\<close> is a pointer into \<^verbatim>\<open>pages\<close>: the
  index of the element it points to, or \<open>None\<close> for \<^verbatim>\<open>nil\<close>.
\<close>

fun classify_loop ::
  "Page list \<Rightarrow> nat \<Rightarrow> nat option \<times> Page list \<Rightarrow> nat option \<times> Page list" where
  "classify_loop [] i acc = acc"
| "classify_loop (page # rest) i acc =
     classify_loop rest (Suc i)
       (if HasSuffix (Path page) ''index.md'' then (Some i, snd acc)
        else if Contains (Path page) ''/blog/'' then (fst acc, snd acc @ [page])
        else acc)"

definition classify :: "Page list \<Rightarrow> nat option \<times> Page list" where
  "classify pages = classify_loop pages 0 (None, [])"

text \<open>The comparison given to \<^verbatim>\<open>sort.Slice\<close>: \<^verbatim>\<open>blogPosts[i].Date.After(blogPosts[j].Date)\<close>.\<close>

definition lessDate :: "Page \<Rightarrow> Page \<Rightarrow> bool" where
  "lessDate a b = After (Date a) (Date b)"


text \<open>
  One routine that meets this contract, the insertion sort of the package \<^verbatim>\<open>sort\<close>:
  \<^verbatim>\<open>for i := a + 1; i < b; i++ { for j := i; j > a && less(j, j-1); j-- { swap(j, j-1) } }\<close>.
  \<open>insertBack lt x rs\<close> moves \<open>x\<close> down from the end of the sorted part, which is held
  reversed as \<open>rs\<close>. It stands for \<^verbatim>\<open>sort.Slice\<close> in the sample site.
\<close>

fun insertBack :: "('a \<Rightarrow> 'a \<Rightarrow> bool) \<Rightarrow> 'a \<Rightarrow> 'a list \<Rightarrow> 'a list" where
  "insertBack lt x [] = [x]"
| "insertBack lt x (r # rs) = (if lt x r then r # insertBack lt x rs else x # r # rs)"

definition insertionSort :: "('a \<Rightarrow> 'a \<Rightarrow> bool) \<Rightarrow> 'a list \<Rightarrow> 'a list" where
  "insertionSort lt xs = rev (foldl (\<lambda>rs x. insertBack lt x rs) [] xs)"

text \<open>\<^verbatim>\<open>homePage.URL = "/index.html"\<close>, through the pointer into \<^verbatim>\<open>pages\<close>.\<close>

definition setHomeURL :: "Page list \<Rightarrow> nat \<Rightarrow> Page list" where
  "setHomeURL pages i = pages[i := (pages ! i)\<lparr>URL := ''/index.html''\<rparr>]"

section \<open>The renderer\<close>

definition renderPage :: "env \<Rightarrow> tmpl \<Rightarrow> Page \<Rightarrow> string \<Rightarrow> trace \<Rightarrow> error option \<times> trace" where
  "renderPage e t page outputPath tr =
     (let dir = filepathDir e outputPath;
          tr = tr @ [MkdirAll dir (mkdirAll e dir)]
      in case mkdirAll e dir of
           Some err \<Rightarrow> (Some err, tr)
         | None \<Rightarrow>
             (let tr = tr @ [Create outputPath (create e outputPath)]
              in case create e outputPath of
                   Some err \<Rightarrow> (Some err, tr)
                 | None \<Rightarrow>
                     (let tr = tr @ [Execute t (PageData page) outputPath
                                       (execute e t (PageData page))]
                      in case execute e t (PageData page) of
                           Some err \<Rightarrow> (Some err, tr)
                         | None \<Rightarrow> (None, tr @ [Println (''Generated: '' @ outputPath)]))))"

definition renderBlogIndex :: "env \<Rightarrow> tmpl \<Rightarrow> Page list \<Rightarrow> trace \<Rightarrow> error option \<times> trace" where
  "renderBlogIndex e t posts tr =
     (let outputPath = ''public/blog/index.html'';
          tr = tr @ [MkdirAll ''public/blog'' (mkdirAll e ''public/blog'')]
      in case mkdirAll e ''public/blog'' of
           Some err \<Rightarrow> (Some err, tr)
         | None \<Rightarrow>
             (let tr = tr @ [Create outputPath (create e outputPath)]
              in case create e outputPath of
                   Some err \<Rightarrow> (Some err, tr)
                 | None \<Rightarrow>
                     (let tr = tr @ [Execute t (PostsData posts) outputPath
                                       (execute e t (PostsData posts))]
                      in case execute e t (PostsData posts) of
                           Some err \<Rightarrow> (Some err, tr)
                         | None \<Rightarrow> (None, tr @ [Println (''Generated: '' @ outputPath)]))))"

section \<open>The build\<close>

text \<open>
  How \<^verbatim>\<open>build\<close> ends: it reaches the end of the function, it returns early after
  printing an error message, or the program panics.
\<close>

datatype outcome = Completed | Aborted | Crashed panic

text \<open>The loop that renders the blog posts; it stops at the first error.\<close>

fun renderPosts :: "env \<Rightarrow> tmpl \<Rightarrow> Page list \<Rightarrow> trace \<Rightarrow> error option \<times> trace" where
  "renderPosts e postTmpl [] tr = (None, tr)"
| "renderPosts e postTmpl (post # rest) tr =
     (let outputPath = ''public'' @ URL post
      in case renderPage e postTmpl post outputPath tr of
           (Some err, tr1) \<Rightarrow> (Some err, tr1)
         | (None, tr1) \<Rightarrow> renderPosts e postTmpl rest tr1)"

text \<open>The copy of the stylesheet, the last step of \<^verbatim>\<open>build\<close>.\<close>

definition copyStatic :: "env \<Rightarrow> trace \<Rightarrow> trace" where
  "copyStatic e tr =
     (case readFile e ''static/styles.css'' of
        Inr content \<Rightarrow>
          tr @ [WriteFile ''public/styles.css'' content (writeFile e ''public/styles.css'' content),
                Println ''Copied: public/styles.css'']
      | Inl err \<Rightarrow> tr)"

text \<open>
  \<^verbatim>\<open>build\<close> from the classification of the pages on, given the pages and the three
  templates.
\<close>

definition assembleAndRender ::
  "env \<Rightarrow> Page list \<Rightarrow> tmpl \<Rightarrow> tmpl \<Rightarrow> tmpl \<Rightarrow> trace \<Rightarrow> trace \<times> outcome" where
  "assembleAndRender e pages homeTmpl postTmpl blogIndexTmpl tr =
     (let (homePage, blogPosts) = classify pages;
          blogPosts = sortSlice e lessDate blogPosts;
          (herr, tr) =
            (case homePage of
               None \<Rightarrow> (None, tr)
             | Some i \<Rightarrow>
                 renderPage e homeTmpl (setHomeURL pages i ! i) ''public/index.html'' tr)
      in case herr of
           Some err \<Rightarrow> (tr @ [Println (''Error rendering home page: '' @ Error err)], Aborted)
         | None \<Rightarrow>
             (case renderPosts e postTmpl blogPosts tr of
                (Some err, tr) \<Rightarrow>
                  (tr @ [Println (''Error rendering blog post: '' @ Error err)], Aborted)
              | (None, tr) \<Rightarrow>
                  (case renderBlogIndex e blogIndexTmpl blogPosts tr of
                     (Some err, tr) \<Rightarrow>
                       (tr @ [Println (''Error rendering blog index: '' @ Error err)], Aborted)
                   | (None, tr) \<Rightarrow> (copyStatic e tr, Completed))))"

text \<open>
  \<^verbatim>\<open>build\<close> from the listing of the discovered files on: loading the pages, parsing the
  three templates, and the rest.
\<close>

definition loadAndRender :: "env \<Rightarrow> string list \<Rightarrow> trace \<Rightarrow> trace \<times> outcome" where
  "loadAndRender e markdownFiles tr =
     (let tr = tr @ [Println ''Found markdown files:'']
                  @ map (\<lambda>file. Println ('' - '' @ file)) markdownFiles
      in case generateHtml e markdownFiles of
           Inl (Panic p) \<Rightarrow> (tr, Crashed p)
         | Inl (Err err) \<Rightarrow>
             (tr @ [Println (''Error generating HTML: '' @ Error err)], Aborted)
         | Inr pages \<Rightarrow>
             (case parseFiles e ''templates/home.html'' of
                Inl err \<Rightarrow>
                  (tr @ [Println (''Error parsing home.html template: '' @ Error err)],
                   Aborted)
              | Inr homeTmpl \<Rightarrow>
                  (case parseFiles e ''templates/post.html'' of
                     Inl err \<Rightarrow>
                       (tr @ [Println (''Error parsing post.html template: '' @ Error err)],
                        Aborted)
                   | Inr postTmpl \<Rightarrow>
                       (case parseFiles e ''templates/blog_index.html'' of
                          Inl err \<Rightarrow>
                            (tr @ [Println (''Error parsing blog index template: ''
                                             @ Error err)], Aborted)
                        | Inr blogIndexTmpl \<Rightarrow>
                            assembleAndRender e pages homeTmpl postTmpl blogIndexTmpl tr))))"

text \<open>\<^verbatim>\<open>func build()\<close>.\<close>

definition build :: "env \<Rightarrow> trace \<times> outcome" where
  "build e =
     (if statNotExist e ''content''
      then ([Println ''Missing content/ directory. Did you run `slate init`?''], Aborted)
      else if statNotExist e ''templates''
      then ([Println ''Missing templates/ directory. Did you run `slate init`?''], Aborted)
      else
        case findMarkdownFiles e ''content'' [] of
          Inl p \<Rightarrow> ([], Crashed p)
        | Inr (markdownFiles, Some err, tr) \<Rightarrow>
            (tr @ [Println (''Error finding markdown files: '' @ Error err)], Aborted)
        | Inr (markdownFiles, None, tr) \<Rightarrow> loadAndRender e markdownFiles tr)"

section \<open>A sample site\<close>

text \<open>
  A small environment on which the functions can be run: the content tree
  \<^verbatim>\<open>content/{blog/{hello.md, notes.txt}, index.md, private/}\<close>, where \<^verbatim>\<open>private\<close> cannot be
  read, a stylesheet that can be read, and an output directory where the stylesheet
  cannot be written.
\<close>

definition sampleHello :: bytes where
  "sampleHello = ''---\<newline>title: Hello World\<newline>date: 2025-01-17\<newline>---\<newline>Body text''"

text \<open>
  The YAML decoder on the two blocks used below. On the first it fills both fields. On
  the second, \<^verbatim>\<open>title: Hello\<close> followed by \<^verbatim>\<open>date: [1]\<close>, the library stores the title,
  cannot store a sequence in the string field, and returns an error: it documents that
  decoding continues partially after a type mismatch.
\<close>

definition sampleUnmarshal :: decoder where
  "sampleUnmarshal b fm =
     (if b = ''title: Hello World\<newline>date: 2025-01-17''
      then (None, fm\<lparr>fmTitle := ''Hello World'', fmDate := ''2025-01-17''\<rparr>)
      else if b = ''title: Hello\<newline>date: [1]''
      then (Some (Failure ''yaml: unmarshal errors: line 2: cannot unmarshal !!seq into string''),
            fm\<lparr>fmTitle := ''Hello''\<rparr>)
      else (None, fm))"

definition sampleTree :: fsnode where
  "sampleTree =
     DirNode
       [(''blog'', DirNode [(''hello.md'', FileNode), (''notes.txt'', FileNode)] None),
        (''index.md'', FileNode),
        (''private'', DirNode [] (Some (Failure ''permission denied'')))]
       None"

definition sampleEnv :: env where
  "sampleEnv =
     \<lparr>yamlUnmarshal = sampleUnmarshal,
      goldmarkConvert = (\<lambda>markdown. Inr (''<p>'' @ markdown @ ''</p>'')),
      stringsTitle = (\<lambda>s. s),
      sortSlice = insertionSort,
      filepathDir = (\<lambda>p. rev (drop 1 (dropWhile (\<lambda>c. c \<noteq> CHR ''/'') (rev p)))),
      statNotExist = (\<lambda>p. False),
      lstat = (\<lambda>p. if p = ''content'' then Inr sampleTree else Inl (Failure ''no such file'')),
      readFile = (\<lambda>p. if p = ''content/blog/hello.md'' then Inr sampleHello
                        else if p = ''content/index.md'' then Inr ''# Welcome''
                        else if p = ''static/styles.css'' then Inr ''body {}''
                        else Inl (Failure ''no such file'')),
      parseFiles = (\<lambda>p. Inr p),
      mkdirAll = (\<lambda>p. None),
      create = (\<lambda>p. None),
      execute = (\<lambda>t d. None),
      writeFile = (\<lambda>p b. Some (Failure ''permission denied''))\<rparr>"





text \<open>A page as the loader builds it for a file without metadata and with an empty body.\<close>

definition samplePage :: "string \<Rightarrow> Page" where
  "samplePage path = \<lparr>Path = path, URL = pathToURL path, Title = Base path,
                       Date = zeroTime, Content = []\<rparr>"

text \<open>The pages the loader builds for the sample site.\<close>

definition samplePages :: "Page list" where
  "samplePages =
     [\<lparr>Path = ''content/blog/hello.md'', URL = ''/blog/hello.html'', Title = ''Hello World'',
        Date = timeDate 2025 1 17, Content = ''<p>Body text</p>''\<rparr>,
      \<lparr>Path = ''content/index.md'', URL = ''/index.html'', Title = ''index'',
        Date = zeroTime, Content = ''<p># Welcome</p>''\<rparr>]"

section \<open>Properties of the byte-string functions\<close>

lemma Index_ge: "- 1 \<le> Index s sep"
  by (induction s) (auto simp: Let_def)

lemma Index_le_length: "Index s sep \<le> int (length s)"
  by (induction s) (auto simp: Let_def)

lemma Index_found:
  "Index s sep \<noteq> - 1 \<Longrightarrow> take (length sep) (drop (nat (Index s sep)) s) = sep"
proof (induction s)
  case Nil
  then show ?case by (simp split: if_splits)
next
  case (Cons c s)
  show ?case
  proof (cases "HasPrefix (c # s) sep")
    case True
    then show ?thesis by (simp add: HasPrefix_def)
  next
    case False
    with Cons.prems have ne: "Index s sep \<noteq> - 1"
      by (auto simp: Let_def split: if_splits)
    have ge: "0 \<le> Index s sep"
      using Index_ge [of s sep] ne by linarith
    from False ne have "Index (c # s) sep = Index s sep + 1"
      by (simp add: Let_def)
    moreover have "nat (Index s sep + 1) = Suc (nat (Index s sep))"
      using ge by simp
    ultimately show ?thesis
      using Cons.IH [OF ne] by simp
  qed
qed

lemma Index_none:
  "Index s sep = - 1 \<Longrightarrow> \<not> (\<exists>us vs. s = us @ sep @ vs)"
proof (induction s)
  case Nil
  then show ?case by (auto split: if_splits)
next
  case (Cons c s)
  from Cons.prems have np: "\<not> HasPrefix (c # s) sep" and r: "Index s sep = - 1"
    using Index_ge [of s sep] by (auto simp: Let_def split: if_splits)
  show ?case
  proof
    assume "\<exists>us vs. c # s = us @ sep @ vs"
    then obtain us vs where e: "c # s = us @ sep @ vs" by blast
    show False
    proof (cases us)
      case Nil
      with e have "HasPrefix (c # s) sep" by (simp add: HasPrefix_def)
      with np show False by simp
    next
      case (Cons u us')
      with e have "s = us' @ sep @ vs" by simp
      with Cons.IH [OF r] show False by blast
    qed
  qed
qed

lemma Index_absent:
  "\<not> (\<exists>us vs. s = us @ sep @ vs) \<Longrightarrow> Index s sep = - 1"
proof (rule ccontr)
  assume no: "\<not> (\<exists>us vs. s = us @ sep @ vs)" and ne: "Index s sep \<noteq> - 1"
  from ne have "take (length sep) (drop (nat (Index s sep)) s) = sep"
    by (rule Index_found)
  then have "s = take (nat (Index s sep)) s @ sep
                 @ drop (length sep) (drop (nat (Index s sep)) s)"
    by (metis append_take_drop_id)
  with no show False by blast
qed

lemma HasPrefix_append: "HasPrefix (p @ s) p"
  by (simp add: HasPrefix_def)

text \<open>
  If \<open>sep\<close> does not occur in \<open>pre\<close> followed by all but the last byte of \<open>sep\<close>, the
  first instance of \<open>sep\<close> in \<open>pre @ sep @ post\<close> is the one after \<open>pre\<close>.
\<close>

lemma Index_first:
  assumes "sep \<noteq> []"
    and "\<not> (\<exists>us vs. pre @ butlast sep = us @ sep @ vs)"
  shows "Index (pre @ sep @ post) sep = int (length pre)"
  using assms(2)
proof (induction pre)
  case Nil
  from assms(1) obtain c cs where "sep @ post = c # cs"
    by (cases sep) auto
  moreover have "HasPrefix (sep @ post) sep" by (rule HasPrefix_append)
  ultimately show ?case by simp
next
  case (Cons b pre)
  have np: "\<not> HasPrefix (b # pre @ sep @ post) sep"
  proof
    assume "HasPrefix (b # pre @ sep @ post) sep"
    then have t: "take (length sep) ((b # pre) @ sep @ post) = sep"
      by (simp add: HasPrefix_def)
    from assms(1) have sp: "sep = butlast sep @ [last sep]" by simp
    have le: "length sep \<le> length ((b # pre) @ butlast sep)"
      using assms(1) by simp
    have "(b # pre) @ sep @ post = ((b # pre) @ butlast sep) @ ([last sep] @ post)"
      using sp by (metis append_assoc)
    with t le have "take (length sep) ((b # pre) @ butlast sep) = sep"
      by (metis take_append diff_is_0_eq take_0 append_Nil2)
    then have "(b # pre) @ butlast sep
                 = [] @ sep @ drop (length sep) ((b # pre) @ butlast sep)"
      by (metis append_Nil append_take_drop_id)
    with Cons.prems show False by blast
  qed
  have "\<not> (\<exists>us vs. pre @ butlast sep = us @ sep @ vs)"
  proof
    assume "\<exists>us vs. pre @ butlast sep = us @ sep @ vs"
    then obtain us vs where "pre @ butlast sep = us @ sep @ vs" by blast
    then have "(b # pre) @ butlast sep = (b # us) @ sep @ vs" by simp
    with Cons.prems show False by blast
  qed
  then have "Index (pre @ sep @ post) sep = int (length pre)" by (rule Cons.IH)
  with np show ?case by (simp add: Let_def)
qed

section \<open>The metadata header parser\<close>

text \<open>
  The input \<open>---\<close>, \<open>pre\<close>, newline, \<open>---\<close>, \<open>post\<close>, where the closing delimiter is the
  first one after the opening delimiter and \<open>pre\<close> is not empty: the decoder receives \<open>pre\<close>
  without one leading newline, and the body is \<open>post\<close> without one leading newline.
\<close>

lemma parseFrontmatter_delimited:
  assumes c: "content = ''---'' @ pre @ ''\<newline>---'' @ post"
    and first: "\<not> (\<exists>us vs. pre @ ''\<newline>--'' = us @ ''\<newline>---'' @ vs)"
    and ne: "pre \<noteq> []"
  shows "parseFrontmatter unmarshal content
           = Inr (snd (unmarshal (TrimPrefix pre ''\<newline>'') zeroFrontmatter),
                  TrimPrefix post ''\<newline>'')"
proof -
  have i: "Index (pre @ ''\<newline>---'' @ post) ''\<newline>---'' = int (length pre)"
    using first by (intro Index_first) simp_all
  from ne obtain y ys where pre: "pre = y # ys" by (cases pre) auto
  have hp: "HasPrefix content ''---''" using c by (simp add: HasPrefix_def)
  have d: "drop 3 content = pre @ ''\<newline>---'' @ post" using c by simp
  have blk: "(if y = CHR ''\<newline>'' then ys else y # ys) = TrimPrefix pre ''\<newline>''"
    by (simp add: TrimPrefix_def HasPrefix_def pre)
  have body: "(case post of [] \<Rightarrow> post | m # ms \<Rightarrow> if m = CHR ''\<newline>'' then ms else post)
                = TrimPrefix post ''\<newline>''"
    by (cases post) (simp_all add: TrimPrefix_def HasPrefix_def)
  have n4: "nat (int (length pre) + 4) = length pre + 4" by simp
  have dr: "drop (length pre + 4) (pre @ ''\<newline>---'' @ post) = post" by simp
  have tk: "take (length pre) (pre @ ''\<newline>---'' @ post) = y # ys" by (simp add: pre)
  show ?thesis
    unfolding parseFrontmatter_def Let_def d i
    using hp by (simp only: n4 dr nat_int tk list.case blk body if_False if_True not_True_eq_False
                 not_not) simp
qed

text \<open>Every input that starts with the two delimiters back to back panics.\<close>

lemma parseFrontmatter_panics:
  "parseFrontmatter unmarshal (''---\<newline>---'' @ post) = Inl IndexOutOfRange"
  by (simp add: parseFrontmatter_def HasPrefix_def Let_def)

text \<open>
  C1. An input with an empty metadata block, such as the bytes
  \<^verbatim>\<open>"---\n---\nbody"\<close>, makes \<^verbatim>\<open>parseFrontmatter\<close> panic: the closing delimiter is found
  at index 0 of the text after the opening delimiter, the block is the empty slice, and
  \<^verbatim>\<open>yamlContent[0]\<close> is evaluated without a length check. This holds whatever the decoder
  does, since the decoder is never reached.
\<close>

theorem parseFrontmatter_empty_block_panics:
  "parseFrontmatter unmarshal ''---\<newline>---\<newline>body'' = Inl IndexOutOfRange"
  by (simp add: parseFrontmatter_def HasPrefix_def Let_def)

text \<open>
  C6. An input that begins with the opening delimiter and has no newline followed by the
  delimiter anywhere after it is returned whole, the unclosed delimiter included, as the
  body, with empty metadata.
\<close>

theorem parseFrontmatter_unclosed:
  assumes "HasPrefix content ''---''"
    and "\<not> (\<exists>us vs. drop 3 content = us @ ''\<newline>---'' @ vs)"
  shows "parseFrontmatter unmarshal content = Inr (\<lparr>fmTitle = [], fmDate = []\<rparr>, content)"
proof -
  from assms(2) have "Index (drop 3 content) ''\<newline>---'' = - 1"
    by (rule Index_absent)
  with assms(1) show ?thesis
    by (simp add: parseFrontmatter_def Let_def zeroFrontmatter_def)
qed

theorem parseFrontmatter_unclosed_witness:
  "HasPrefix ''---\<newline>title: Draft\<newline>--'' ''---''
   \<and> \<not> (\<exists>us vs. drop 3 ''---\<newline>title: Draft\<newline>--'' = us @ ''\<newline>---'' @ vs)
   \<and> parseFrontmatter (\<lambda>b fm. (None, fm)) ''---\<newline>title: Draft\<newline>--''
       = Inr (\<lparr>fmTitle = [], fmDate = []\<rparr>, ''---\<newline>title: Draft\<newline>--'')"
proof -
  have p: "HasPrefix ''---\<newline>title: Draft\<newline>--'' ''---''"
    by (simp add: HasPrefix_def)
  have "Index (drop 3 ''---\<newline>title: Draft\<newline>--'') ''\<newline>---'' = - 1"
    by (simp add: HasPrefix_def Let_def)
  then have n: "\<not> (\<exists>us vs. drop 3 ''---\<newline>title: Draft\<newline>--'' = us @ ''\<newline>---'' @ vs)"
    by (rule Index_none)
  from p n parseFrontmatter_unclosed [OF p n, of "\<lambda>b fm. (None, fm)"]
  show ?thesis by blast
qed

text \<open>
  C4, as the code has it. When the text between valid delimiters is not empty and the
  decoder fails on it, \<^verbatim>\<open>parseFrontmatter\<close> drops the error and still returns the body;
  the metadata fields are what the decoder has left in the struct that was empty before the
  call. They are empty when the decoder has stored nothing.
\<close>

theorem parseFrontmatter_decode_failure:
  assumes "content = ''---'' @ pre @ ''\<newline>---'' @ post"
    and "\<not> (\<exists>us vs. pre @ ''\<newline>--'' = us @ ''\<newline>---'' @ vs)"
    and "pre \<noteq> []"
    and "fst (unmarshal (TrimPrefix pre ''\<newline>'') zeroFrontmatter) = Some err"
  shows "parseFrontmatter unmarshal content
           = Inr (snd (unmarshal (TrimPrefix pre ''\<newline>'') zeroFrontmatter),
                  TrimPrefix post ''\<newline>'')
         \<and> (snd (unmarshal (TrimPrefix pre ''\<newline>'') zeroFrontmatter) = zeroFrontmatter
              \<longrightarrow> parseFrontmatter unmarshal content
                    = Inr (\<lparr>fmTitle = [], fmDate = []\<rparr>, TrimPrefix post ''\<newline>''))"
proof -
  have "parseFrontmatter unmarshal content
           = Inr (snd (unmarshal (TrimPrefix pre ''\<newline>'') zeroFrontmatter),
                  TrimPrefix post ''\<newline>'')"
    using assms(1-3) by (rule parseFrontmatter_delimited)
  then show ?thesis by (simp add: zeroFrontmatter_def)
qed

text \<open>A decoder that stops at a syntax error and stores nothing.\<close>

theorem parseFrontmatter_decode_failure_witness:
  "fst ((\<lambda>b fm. (Some (Failure ''yaml: did not find expected key''), fm))
          ''title: [Hello'' zeroFrontmatter) = Some (Failure ''yaml: did not find expected key'')
   \<and> parseFrontmatter (\<lambda>b fm. (Some (Failure ''yaml: did not find expected key''), fm))
         ''---\<newline>title: [Hello\<newline>---\<newline>body''
       = Inr (\<lparr>fmTitle = [], fmDate = []\<rparr>, ''body'')"
proof -
  let ?u = "\<lambda>(b::bytes) (fm::Frontmatter). (Some (Failure ''yaml: did not find expected key''), fm)"
  have c: "''---\<newline>title: [Hello\<newline>---\<newline>body''
             = ''---'' @ ''\<newline>title: [Hello'' @ ''\<newline>---'' @ ''\<newline>body''"
    by simp
  have "Index (''\<newline>title: [Hello'' @ ''\<newline>--'') ''\<newline>---'' = - 1"
    by (simp add: HasPrefix_def Let_def)
  then have f: "\<not> (\<exists>us vs. ''\<newline>title: [Hello'' @ ''\<newline>--'' = us @ ''\<newline>---'' @ vs)"
    by (rule Index_none)
  have n: "''\<newline>title: [Hello'' \<noteq> []" by simp
  have d: "fst (?u (TrimPrefix ''\<newline>title: [Hello'' ''\<newline>'') zeroFrontmatter)
             = Some (Failure ''yaml: did not find expected key'')"
    by simp
  from parseFrontmatter_decode_failure [of _ _ _ ?u, OF c f n d]
  show ?thesis by (simp add: TrimPrefix_def HasPrefix_def zeroFrontmatter_def)
qed

text \<open>
  The claim as it was stated fails: on the header \<^verbatim>\<open>title: Hello\<close>, \<^verbatim>\<open>date: [1]\<close> the
  decoder reports an error after it has stored the title, and the title is returned.
\<close>

theorem parseFrontmatter_decode_failure_counterexample:
  "fst (sampleUnmarshal ''title: Hello\<newline>date: [1]'' zeroFrontmatter) \<noteq> None
   \<and> parseFrontmatter sampleUnmarshal ''---\<newline>title: Hello\<newline>date: [1]\<newline>---\<newline>body''
       = Inr (\<lparr>fmTitle = ''Hello'', fmDate = []\<rparr>, ''body'')"
  by (simp add: parseFrontmatter_def HasPrefix_def Let_def sampleUnmarshal_def
        zeroFrontmatter_def)

section \<open>The content loader\<close>

lemma timeParse_2025: "timeParse ''2025-01-17'' = (timeDate 2025 1 17, None)"
  by (simp add: timeParse_def isDigit_def digit_def daysIn_def isLeap_def Let_def)

lemma parse_sampleHello:
  assumes "unmarshal ''title: Hello World\<newline>date: 2025-01-17'' zeroFrontmatter = (None, fm)"
  shows "parseFrontmatter unmarshal sampleHello = Inr (fm, ''Body text'')"
  using assms
  by (simp add: parseFrontmatter_def sampleHello_def HasPrefix_def Let_def)

lemma timeParse_error: "snd (timeParse v) \<noteq> None \<Longrightarrow> fst (timeParse v) = zeroTime"
  by (auto simp: timeParse_def Let_def split: list.splits if_splits)

text \<open>Two date strings that are not of the form, and one that names no day.\<close>

lemma timeParse_rejects:
  "timeParse ''17/01/2025'' = (zeroTime, Some (Failure ''cannot parse''))"
  "timeParse ''2025-1-17'' = (zeroTime, Some (Failure ''cannot parse''))"
  "timeParse ''2025-02-30'' = (zeroTime, Some (Failure ''day out of range''))"
  by (simp_all add: timeParse_def isDigit_def digit_def daysIn_def isLeap_def Let_def)

lemma loadPage_date:
  assumes "readFile e file = Inr content"
    and "parseFrontmatter (yamlUnmarshal e) content = Inr (fm, markdown)"
    and "goldmarkConvert e markdown = Inr html"
  shows "\<exists>page. loadPage e file = Inr page \<and> Path page = file
           \<and> Date page = (if fmDate fm = [] then zeroTime else fst (timeParse (fmDate fm)))"
  using assms by (simp add: loadPage_def Let_def)

lemma generateHtml_loop_all2:
  assumes "list_all2 (\<lambda>f p. loadPage e f = Inr p) files ps"
  shows "generateHtml_loop e acc files = Inr (acc @ ps)"
  using assms
  by (induction files ps arbitrary: acc rule: list_all2_induct) simp_all

lemma list_all2_exists:
  "\<forall>x\<in>set xs. \<exists>y. P x y \<Longrightarrow> \<exists>ys. list_all2 P xs ys"
proof (induction xs)
  case Nil
  then show ?case by simp
next
  case (Cons x xs)
  then obtain y ys where "P x y" "list_all2 P xs ys" by auto
  then have "list_all2 P (x # xs) (y # ys)" by simp
  then show ?case by blast
qed

text \<open>
  C7. For the file \<^verbatim>\<open>---\<close>, \<^verbatim>\<open>title: Hello World\<close>, \<^verbatim>\<open>date: 2025-01-17\<close>, \<^verbatim>\<open>---\<close>,
  \<^verbatim>\<open>Body text\<close>, the header parser hands the two lines between the delimiters to the
  decoder and returns the body \<^verbatim>\<open>Body text\<close>; with the fields the decoder reads from these
  two lines, the loader builds the page with the title \<^verbatim>\<open>Hello World\<close> and the date
  2025-01-17.
\<close>

theorem hello_world_round_trip:
  assumes dec: "yamlUnmarshal e ''title: Hello World\<newline>date: 2025-01-17'' zeroFrontmatter
                  = (None, \<lparr>fmTitle = ''Hello World'', fmDate = ''2025-01-17''\<rparr>)"
    and rd: "readFile e file
               = Inr ''---\<newline>title: Hello World\<newline>date: 2025-01-17\<newline>---\<newline>Body text''"
    and cv: "goldmarkConvert e ''Body text'' = Inr html"
  shows "parseFrontmatter (yamlUnmarshal e)
           ''---\<newline>title: Hello World\<newline>date: 2025-01-17\<newline>---\<newline>Body text''
           = Inr (\<lparr>fmTitle = ''Hello World'', fmDate = ''2025-01-17''\<rparr>, ''Body text'')
         \<and> generateHtml e [file]
             = Inr [\<lparr>Path = file, URL = pathToURL file, Title = ''Hello World'',
                      Date = timeDate 2025 1 17, Content = html\<rparr>]"
proof -
  have p: "parseFrontmatter (yamlUnmarshal e) sampleHello
             = Inr (\<lparr>fmTitle = ''Hello World'', fmDate = ''2025-01-17''\<rparr>, ''Body text'')"
    using dec by (rule parse_sampleHello)
  have r: "readFile e file = Inr sampleHello"
    using rd by (simp add: sampleHello_def)
  have "loadPage e file = Inr \<lparr>Path = file, URL = pathToURL file, Title = ''Hello World'',
                      Date = timeDate 2025 1 17, Content = html\<rparr>"
    unfolding loadPage_def r sum.case p prod.case cv Let_def
    by (simp add: timeParse_2025)
  then have "generateHtml e [file]
             = Inr [\<lparr>Path = file, URL = pathToURL file, Title = ''Hello World'',
                      Date = timeDate 2025 1 17, Content = html\<rparr>]"
    by (simp add: generateHtml_def)
  with p show ?thesis by (simp add: sampleHello_def)
qed

theorem hello_world_round_trip_witness:
  "generateHtml sampleEnv [''content/blog/hello.md'']
     = Inr [\<lparr>Path = ''content/blog/hello.md'', URL = ''/blog/hello.html'',
              Title = ''Hello World'', Date = timeDate 2025 1 17,
              Content = ''<p>Body text</p>''\<rparr>]"
proof -
  have d: "yamlUnmarshal sampleEnv ''title: Hello World\<newline>date: 2025-01-17'' zeroFrontmatter
                  = (None, \<lparr>fmTitle = ''Hello World'', fmDate = ''2025-01-17''\<rparr>)"
    by (simp add: sampleEnv_def sampleUnmarshal_def zeroFrontmatter_def)
  have r: "readFile sampleEnv ''content/blog/hello.md''
               = Inr ''---\<newline>title: Hello World\<newline>date: 2025-01-17\<newline>---\<newline>Body text''"
    by (simp add: sampleEnv_def sampleHello_def)
  have c: "goldmarkConvert sampleEnv ''Body text'' = Inr ''<p>Body text</p>''"
    by (simp add: sampleEnv_def)
  have u: "pathToURL ''content/blog/hello.md'' = ''/blog/hello.html''"
    by (simp add: pathToURL_def TrimPrefix_def TrimSuffix_def HasPrefix_def HasSuffix_def)
  from hello_world_round_trip [OF d r c] u show ?thesis by simp
qed

text \<open>
  C8. When every file can be read, parsed and converted, the loader returns one page per
  file, in order, and no error; a page whose metadata date is absent or is rejected by
  \<^verbatim>\<open>time.Parse\<close> has the zero date. A bad date is never a reason for the loader to fail.
\<close>

theorem generateHtml_bad_date:
  assumes ok: "\<forall>file\<in>set files. \<exists>content fm markdown html.
                 readFile e file = Inr content
                 \<and> parseFrontmatter (yamlUnmarshal e) content = Inr (fm, markdown)
                 \<and> goldmarkConvert e markdown = Inr html"
  shows "\<exists>pages. generateHtml e files = Inr pages \<and> length pages = length files
           \<and> (\<forall>i<length files. \<forall>content fm markdown.
                 readFile e (files ! i) = Inr content
                 \<and> parseFrontmatter (yamlUnmarshal e) content = Inr (fm, markdown)
                 \<and> (fmDate fm = [] \<or> snd (timeParse (fmDate fm)) \<noteq> None)
                 \<longrightarrow> Path (pages ! i) = files ! i \<and> Date (pages ! i) = zeroTime)"
proof -
  have "\<forall>file\<in>set files. \<exists>page. loadPage e file = Inr page"
  proof
    fix f assume "f \<in> set files"
    with ok obtain content fm markdown html where
      "readFile e f = Inr content"
      "parseFrontmatter (yamlUnmarshal e) content = Inr (fm, markdown)"
      "goldmarkConvert e markdown = Inr html" by blast
    from loadPage_date [OF this] show "\<exists>page. loadPage e f = Inr page" by blast
  qed
  then obtain pages where all2: "list_all2 (\<lambda>f p. loadPage e f = Inr p) files pages"
    using list_all2_exists [of files "\<lambda>f p. loadPage e f = Inr p"] by blast
  then have g: "generateHtml e files = Inr pages"
    using generateHtml_loop_all2 [of e files pages "[]"] by (simp add: generateHtml_def)
  from all2 have len: "length pages = length files"
    by (simp add: list_all2_lengthD)
  have "\<forall>i<length files. \<forall>content fm markdown.
                 readFile e (files ! i) = Inr content
                 \<and> parseFrontmatter (yamlUnmarshal e) content = Inr (fm, markdown)
                 \<and> (fmDate fm = [] \<or> snd (timeParse (fmDate fm)) \<noteq> None)
                 \<longrightarrow> Path (pages ! i) = files ! i \<and> Date (pages ! i) = zeroTime"
  proof (intro allI impI)
    fix i content fm markdown
    assume i: "i < length files"
      and h: "readFile e (files ! i) = Inr content
                 \<and> parseFrontmatter (yamlUnmarshal e) content = Inr (fm, markdown)
                 \<and> (fmDate fm = [] \<or> snd (timeParse (fmDate fm)) \<noteq> None)"
    from all2 i have lp: "loadPage e (files ! i) = Inr (pages ! i)"
      using list_all2_nthD [of "\<lambda>f p. loadPage e f = Inr p" files pages i] by blast
    from i ok obtain html where cv: "goldmarkConvert e markdown = Inr html"
      using h by (metis nth_mem Inr_inject prod.inject)
    from h have rd: "readFile e (files ! i) = Inr content"
      and pf: "parseFrontmatter (yamlUnmarshal e) content = Inr (fm, markdown)" by simp_all
    from loadPage_date [OF rd pf cv] lp
    have "Path (pages ! i) = files ! i"
      and "Date (pages ! i) = (if fmDate fm = [] then zeroTime else fst (timeParse (fmDate fm)))"
      by auto
    with h timeParse_error [of "fmDate fm"]
    show "Path (pages ! i) = files ! i \<and> Date (pages ! i) = zeroTime" by auto
  qed
  with g len show ?thesis by blast
qed

theorem generateHtml_bad_date_witness:
  "\<exists>pages.
     generateHtml
       (sampleEnv\<lparr>readFile := (\<lambda>p. Inr ''---\<newline>date: 17/01/2025\<newline>---\<newline>text''),
                  yamlUnmarshal := (\<lambda>b fm. (None, fm\<lparr>fmDate := ''17/01/2025''\<rparr>))\<rparr>)
       [''content/blog/bad.md''] = Inr pages
     \<and> length pages = 1
     \<and> Path (pages ! 0) = ''content/blog/bad.md''
     \<and> Date (pages ! 0) = zeroTime"
proof -
  let ?e = "sampleEnv\<lparr>readFile := (\<lambda>p. Inr ''---\<newline>date: 17/01/2025\<newline>---\<newline>text''),
                  yamlUnmarshal := (\<lambda>b fm. (None, fm\<lparr>fmDate := ''17/01/2025''\<rparr>))\<rparr>"
  let ?fm = "\<lparr>fmTitle = [], fmDate = ''17/01/2025''\<rparr>"
  have rd: "readFile ?e ''content/blog/bad.md'' = Inr ''---\<newline>date: 17/01/2025\<newline>---\<newline>text''"
    by simp
  have pf: "parseFrontmatter (yamlUnmarshal ?e) ''---\<newline>date: 17/01/2025\<newline>---\<newline>text''
              = Inr (?fm, ''text'')"
    by (simp add: parseFrontmatter_def HasPrefix_def Let_def zeroFrontmatter_def)
  have cv: "goldmarkConvert ?e ''text'' = Inr ''<p>text</p>''"
    by (simp add: sampleEnv_def)
  have bad: "fmDate ?fm = [] \<or> snd (timeParse (fmDate ?fm)) \<noteq> None"
    by (simp add: timeParse_rejects)
  have ok: "\<forall>f\<in>set [''content/blog/bad.md'']. \<exists>content fm markdown html.
                 readFile ?e f = Inr content
                 \<and> parseFrontmatter (yamlUnmarshal ?e) content = Inr (fm, markdown)
                 \<and> goldmarkConvert ?e markdown = Inr html"
  proof
    fix f assume "f \<in> set [''content/blog/bad.md'']"
    then have "f = ''content/blog/bad.md''" by simp
    with rd pf cv show "\<exists>content fm markdown html.
                 readFile ?e f = Inr content
                 \<and> parseFrontmatter (yamlUnmarshal ?e) content = Inr (fm, markdown)
                 \<and> goldmarkConvert ?e markdown = Inr html" by blast
  qed
  from generateHtml_bad_date [OF ok] obtain pages where
    g: "generateHtml ?e [''content/blog/bad.md''] = Inr pages"
    and len: "length pages = length [''content/blog/bad.md'']"
    and all: "\<forall>i<length [''content/blog/bad.md'']. \<forall>content fm markdown.
                 readFile ?e ([''content/blog/bad.md''] ! i) = Inr content
                 \<and> parseFrontmatter (yamlUnmarshal ?e) content = Inr (fm, markdown)
                 \<and> (fmDate fm = [] \<or> snd (timeParse (fmDate fm)) \<noteq> None)
                 \<longrightarrow> Path (pages ! i) = [''content/blog/bad.md''] ! i
                      \<and> Date (pages ! i) = zeroTime"
    by blast
  have i0: "0 < length [''content/blog/bad.md'']" by simp
  have n0: "[''content/blog/bad.md''] ! 0 = ''content/blog/bad.md''" by simp
  from all [rule_format, OF i0, of _ ?fm "''text''"] rd pf bad
  have "Path (pages ! 0) = ''content/blog/bad.md'' \<and> Date (pages ! 0) = zeroTime"
    unfolding n0 by blast
  with g len show ?thesis by auto
qed

section \<open>File discovery\<close>

lemma walkFn_err:
  "walkFn path d (Some err) st =
     Inr (None, (fst st,
            snd st @ [Println (''Warning: could not access '' @ path @ '' - '' @ Error err)]))"
  by (simp add: walkFn_def)

lemma walkFn_file:
  "walkFn path (Some False) None st =
     Inr (None, (fst st @ filter isMarkdown [path], snd st))"
  by (cases st) (simp add: walkFn_def isMarkdown_def)

lemma walkFn_dir: "walkFn path (Some True) None st = Inr (None, st)"
  by (simp add: walkFn_def)

text \<open>
  With the callback of \<^verbatim>\<open>findMarkdownFiles\<close> the walk neither fails nor panics: it adds
  the Markdown files of the tree to \<^verbatim>\<open>files\<close>, in the order of the walk, and prints one
  warning for each directory that could not be read.
\<close>

lemma walkDir_walkFn:
  "walkDir walkFn path node st =
     Inr (None, (fst st @ filter isMarkdown (treeFiles path node),
                 snd st @ treeWarnings path node))"
  and walkDirEntries_walkFn:
  "walkDirEntries walkFn path dirs st =
     Inr (None, (fst st @ filter isMarkdown (treeFilesEntries path dirs),
                 snd st @ treeWarningsEntries path dirs))"
proof (induction walkFn path node st and walkFn path dirs st
       rule: walkDir_walkDirEntries.induct)
  case (1 path st)
  show ?case by (simp add: walkFn_file)
next
  case (2 path dirs readErr st)
  then show ?case by (cases readErr) (simp_all add: walkFn_dir walkFn_err)
next
  case (3 path st)
  show ?case by simp
next
  case (4 path d1 rest st)
  then show ?case by simp
qed

lemma findMarkdownFiles_result:
  "findMarkdownFiles e root tr =
     Inr (case lstat e root of
            Inl err \<Rightarrow>
              ([], None,
               tr @ [Println (''Warning: could not access '' @ root @ '' - '' @ Error err)])
          | Inr info \<Rightarrow>
              (filter isMarkdown (treeFiles root info), None, tr @ treeWarnings root info))"
  by (cases "lstat e root")
     (simp_all add: findMarkdownFiles_def WalkDir_def walkFn_err walkDir_walkFn)

text \<open>The sample tree: the unreadable directory gives a warning, the walk goes on.\<close>

lemma findMarkdownFiles_sample:
  "findMarkdownFiles sampleEnv ''content'' []
     = Inr ([''content/blog/hello.md'', ''content/index.md''], None,
            [Println ''Warning: could not access content/private - permission denied''])"
  by (simp add: findMarkdownFiles_result sampleEnv_def sampleTree_def Join_def isMarkdown_def
        HasSuffix_def ToLower_def toLowerByte_def)

text \<open>
  C9. Whatever the tree and whichever of its directories cannot be read (the root
  included), \<^verbatim>\<open>findMarkdownFiles\<close> returns no error and does not panic: it returns the
  Markdown files among the entries that were listed, in the order of the walk, and prints
  a warning for each directory that could not be read. The build therefore never stops with
  the message for a failed discovery: when the two source directories exist it goes on to
  load the files found.
\<close>

theorem findMarkdownFiles_never_fails:
  "findMarkdownFiles e root tr =
     Inr (case lstat e root of
            Inl err \<Rightarrow>
              ([], None,
               tr @ [Println (''Warning: could not access '' @ root @ '' - '' @ Error err)])
          | Inr info \<Rightarrow>
              (filter isMarkdown (treeFiles root info), None, tr @ treeWarnings root info))
   \<and> (\<exists>files tr'. findMarkdownFiles e ''content'' [] = Inr (files, None, tr')
          \<and> (statNotExist e ''content'' \<or> statNotExist e ''templates''
               \<or> build e = loadAndRender e files tr'))"
proof -
  obtain files tr' where f: "findMarkdownFiles e ''content'' [] = Inr (files, None, tr')"
    by (cases "lstat e ''content''") (simp_all add: findMarkdownFiles_result)
  then have "statNotExist e ''content'' \<or> statNotExist e ''templates''
               \<or> build e = loadAndRender e files tr'"
    by (simp add: build_def)
  with f findMarkdownFiles_result [of e root tr] show ?thesis by blast
qed

section \<open>The site assembler\<close>

lemma classify_loop_posts:
  "snd (classify_loop ps k acc) =
     snd acc @ filter (\<lambda>p. \<not> HasSuffix (Path p) ''index.md'' \<and> Contains (Path p) ''/blog/'') ps"
  by (induction ps arbitrary: k acc) auto

lemma classify_loop_home_none:
  "\<forall>p\<in>set ps. \<not> HasSuffix (Path p) ''index.md'' \<Longrightarrow> fst (classify_loop ps k acc) = fst acc"
  by (induction ps arbitrary: k acc) auto

lemma classify_loop_home_some:
  "\<exists>p\<in>set ps. HasSuffix (Path p) ''index.md'' \<Longrightarrow>
   \<exists>j<length ps. fst (classify_loop ps k acc) = Some (k + j)
      \<and> HasSuffix (Path (ps ! j)) ''index.md''
      \<and> (\<forall>l. j < l \<and> l < length ps \<longrightarrow> \<not> HasSuffix (Path (ps ! l)) ''index.md'')"
proof (induction ps arbitrary: k acc)
  case Nil
  then show ?case by simp
next
  case (Cons p ps)
  let ?acc = "(if HasSuffix (Path p) ''index.md'' then (Some k, snd acc)
        else if Contains (Path p) ''/blog/'' then (fst acc, snd acc @ [p])
        else acc)"
  show ?case
  proof (cases "\<exists>q\<in>set ps. HasSuffix (Path q) ''index.md''")
    case True
    from Cons.IH [OF True, of "Suc k" ?acc]
    obtain j where j: "j < length ps"
      "fst (classify_loop ps (Suc k) ?acc) = Some (Suc k + j)"
      "HasSuffix (Path (ps ! j)) ''index.md''"
      "\<forall>l. j < l \<and> l < length ps \<longrightarrow> \<not> HasSuffix (Path (ps ! l)) ''index.md''"
      by blast
    have "\<forall>l. Suc j < l \<and> l < length (p # ps) \<longrightarrow> \<not> HasSuffix (Path ((p # ps) ! l)) ''index.md''"
    proof (intro allI impI)
      fix l assume l: "Suc j < l \<and> l < length (p # ps)"
      then obtain l' where "l = Suc l'" by (cases l) auto
      with l j(4) show "\<not> HasSuffix (Path ((p # ps) ! l)) ''index.md''" by simp
    qed
    with j show ?thesis
      by (intro exI [of _ "Suc j"]) simp
  next
    case False
    with Cons.prems have hp: "HasSuffix (Path p) ''index.md''" by auto
    from False have "fst (classify_loop ps (Suc k) ?acc) = fst ?acc"
      by (intro classify_loop_home_none) blast
    with hp have "fst (classify_loop (p # ps) k acc) = Some (k + 0)" by simp
    moreover have "\<forall>l. 0 < l \<and> l < length (p # ps) \<longrightarrow> \<not> HasSuffix (Path ((p # ps) ! l)) ''index.md''"
    proof (intro allI impI)
      fix l assume l: "0 < l \<and> l < length (p # ps)"
      then obtain l' where "l = Suc l'" by (cases l) auto
      with l False show "\<not> HasSuffix (Path ((p # ps) ! l)) ''index.md''" by auto
    qed
    ultimately show ?thesis using hp
      by (intro exI [of _ 0]) simp
  qed
qed


lemma renderPage_extends: "\<exists>evs. snd (renderPage e t page outputPath tr) = tr @ evs"
  by (simp add: renderPage_def Let_def split: option.splits)

lemma renderBlogIndex_extends: "\<exists>evs. snd (renderBlogIndex e t posts tr) = tr @ evs"
  by (simp add: renderBlogIndex_def Let_def split: option.splits)

lemma renderPosts_extends: "\<exists>evs. snd (renderPosts e t posts tr) = tr @ evs"
proof (induction posts arbitrary: tr)
  case Nil
  show ?case by simp
next
  case (Cons post rest)
  obtain r tr1 where rp: "renderPage e t post (''public'' @ URL post) tr = (r, tr1)"
    by (cases "renderPage e t post (''public'' @ URL post) tr")
  with renderPage_extends [of e t post "''public'' @ URL post" tr]
  obtain evs where e1: "tr1 = tr @ evs" by auto
  show ?case
  proof (cases r)
    case None
    from Cons.IH [of tr1] obtain evs2 where "snd (renderPosts e t rest tr1) = tr1 @ evs2"
      by blast
    with rp None e1 show ?thesis by (simp add: Let_def)
  next
    case (Some err)
    with rp e1 show ?thesis by (simp add: Let_def)
  qed
qed

lemma copyStatic_extends: "\<exists>evs. copyStatic e tr = tr @ evs"
  by (simp add: copyStatic_def split: sum.splits)

lemma assembleAndRender_home:
  assumes "fst (classify pages) = Some i"
  shows "\<exists>evs. fst (assembleAndRender e pages homeTmpl postTmpl blogIndexTmpl tr)
           = snd (renderPage e homeTmpl ((pages ! i)\<lparr>URL := ''/index.html''\<rparr>)
                    ''public/index.html'' tr) @ evs"
proof -
  obtain posts where cl: "classify pages = (Some i, posts)"
    using assms by (cases "classify pages") simp
  have "\<exists>p\<in>set pages. HasSuffix (Path p) ''index.md''"
  proof (rule ccontr)
    assume "\<not> (\<exists>p\<in>set pages. HasSuffix (Path p) ''index.md'')"
    then have "fst (classify_loop pages 0 (None, [])) = None"
      using classify_loop_home_none [of pages 0 "(None, [])"] by simp
    with assms show False by (simp add: classify_def)
  qed
  from classify_loop_home_some [OF this, of 0 "(None, [])"] assms
  have i: "i < length pages" by (auto simp: classify_def)
  then have hp: "setHomeURL pages i ! i = (pages ! i)\<lparr>URL := ''/index.html''\<rparr>"
    by (simp add: setHomeURL_def)
  let ?sorted = "sortSlice e lessDate posts"
  obtain herr tr1 where
    rp: "renderPage e homeTmpl ((pages ! i)\<lparr>URL := ''/index.html''\<rparr>) ''public/index.html'' tr
           = (herr, tr1)"
    by (cases "renderPage e homeTmpl ((pages ! i)\<lparr>URL := ''/index.html''\<rparr>)
                 ''public/index.html'' tr")
  obtain perr tr2 where ps: "renderPosts e postTmpl ?sorted tr1 = (perr, tr2)"
    by (cases "renderPosts e postTmpl ?sorted tr1")
  obtain berr tr3 where bi: "renderBlogIndex e blogIndexTmpl ?sorted tr2 = (berr, tr3)"
    by (cases "renderBlogIndex e blogIndexTmpl ?sorted tr2")
  from ps renderPosts_extends [of e postTmpl ?sorted tr1]
  obtain evs2 where e2: "tr2 = tr1 @ evs2" by auto
  from bi renderBlogIndex_extends [of e blogIndexTmpl ?sorted tr2]
  obtain evs3 where e3: "tr3 = tr2 @ evs3" by auto
  from copyStatic_extends [of e tr3]
  obtain evs4 where e4: "copyStatic e tr3 = tr3 @ evs4" by auto
  have "\<exists>evs. fst (assembleAndRender e pages homeTmpl postTmpl blogIndexTmpl tr) = tr1 @ evs"
    unfolding assembleAndRender_def cl Let_def prod.case option.case hp rp
    using ps bi e2 e3 e4
    by (cases herr; cases perr; cases berr) simp_all
  with rp show ?thesis by simp
qed


text \<open>
  C3, as the code has it. The page classified as the home page is the last page of the
  list whose path ends with \<^verbatim>\<open>index.md\<close>, wherever it lies in the tree; there is none
  exactly when no path ends so. Such pages are never blog posts: the posts are the pages
  that contain \<^verbatim>\<open>/blog/\<close> among the pages whose paths do not end with \<^verbatim>\<open>index.md\<close>. The home
  page is rendered first, to \<^verbatim>\<open>public/index.html\<close>, with its URL set to \<^verbatim>\<open>/index.html\<close>
  whatever its derived URL was.
\<close>

theorem home_page_is_last_index_md:
  "(fst (classify pages) = None \<longleftrightarrow> (\<forall>p\<in>set pages. \<not> HasSuffix (Path p) ''index.md''))
   \<and> (\<forall>i. fst (classify pages) = Some i \<longrightarrow>
         i < length pages
         \<and> HasSuffix (Path (pages ! i)) ''index.md''
         \<and> (\<forall>l. i < l \<and> l < length pages \<longrightarrow> \<not> HasSuffix (Path (pages ! l)) ''index.md'')
         \<and> setHomeURL pages i ! i = (pages ! i)\<lparr>URL := ''/index.html''\<rparr>
         \<and> (\<exists>evs. fst (assembleAndRender e pages homeTmpl postTmpl blogIndexTmpl tr)
                    = snd (renderPage e homeTmpl ((pages ! i)\<lparr>URL := ''/index.html''\<rparr>)
                             ''public/index.html'' tr) @ evs))
   \<and> snd (classify pages)
       = filter (\<lambda>p. \<not> HasSuffix (Path p) ''index.md'' \<and> Contains (Path p) ''/blog/'') pages"
proof -
  have none: "fst (classify pages) = None \<longleftrightarrow> (\<forall>p\<in>set pages. \<not> HasSuffix (Path p) ''index.md'')"
  proof
    assume n: "fst (classify pages) = None"
    show "\<forall>p\<in>set pages. \<not> HasSuffix (Path p) ''index.md''"
    proof (rule ccontr)
      assume "\<not> (\<forall>p\<in>set pages. \<not> HasSuffix (Path p) ''index.md'')"
      then have "\<exists>p\<in>set pages. HasSuffix (Path p) ''index.md''" by blast
      from classify_loop_home_some [OF this, of 0 "(None, [])"] n
      show False by (auto simp: classify_def)
    qed
  next
    assume "\<forall>p\<in>set pages. \<not> HasSuffix (Path p) ''index.md''"
    then show "fst (classify pages) = None"
      using classify_loop_home_none [of pages 0 "(None, [])"] by (simp add: classify_def)
  qed
  have some: "\<forall>i. fst (classify pages) = Some i \<longrightarrow>
         i < length pages
         \<and> HasSuffix (Path (pages ! i)) ''index.md''
         \<and> (\<forall>l. i < l \<and> l < length pages \<longrightarrow> \<not> HasSuffix (Path (pages ! l)) ''index.md'')
         \<and> setHomeURL pages i ! i = (pages ! i)\<lparr>URL := ''/index.html''\<rparr>
         \<and> (\<exists>evs. fst (assembleAndRender e pages homeTmpl postTmpl blogIndexTmpl tr)
                    = snd (renderPage e homeTmpl ((pages ! i)\<lparr>URL := ''/index.html''\<rparr>)
                             ''public/index.html'' tr) @ evs)"
  proof (intro allI impI)
    fix i assume s: "fst (classify pages) = Some i"
    with none have "\<exists>p\<in>set pages. HasSuffix (Path p) ''index.md''" by auto
    from classify_loop_home_some [OF this, of 0 "(None, [])"] s
    have a: "i < length pages \<and> HasSuffix (Path (pages ! i)) ''index.md''
         \<and> (\<forall>l. i < l \<and> l < length pages \<longrightarrow> \<not> HasSuffix (Path (pages ! l)) ''index.md'')"
      by (auto simp: classify_def)
    then have b: "setHomeURL pages i ! i = (pages ! i)\<lparr>URL := ''/index.html''\<rparr>"
      by (simp add: setHomeURL_def)
    from a b assembleAndRender_home [OF s, of e homeTmpl postTmpl blogIndexTmpl tr]
    show "i < length pages
         \<and> HasSuffix (Path (pages ! i)) ''index.md''
         \<and> (\<forall>l. i < l \<and> l < length pages \<longrightarrow> \<not> HasSuffix (Path (pages ! l)) ''index.md'')
         \<and> setHomeURL pages i ! i = (pages ! i)\<lparr>URL := ''/index.html''\<rparr>
         \<and> (\<exists>evs. fst (assembleAndRender e pages homeTmpl postTmpl blogIndexTmpl tr)
                    = snd (renderPage e homeTmpl ((pages ! i)\<lparr>URL := ''/index.html''\<rparr>)
                             ''public/index.html'' tr) @ evs)"
      by blast
  qed
  have posts: "snd (classify pages)
       = filter (\<lambda>p. \<not> HasSuffix (Path p) ''index.md'' \<and> Contains (Path p) ''/blog/'') pages"
    by (simp add: classify_def classify_loop_posts)
  from none some posts show ?thesis by blast
qed

lemma HasSuffix_index_samples:
  "HasSuffix ''content/index.md'' ''index.md''"
  "HasSuffix ''content/notes/index.md'' ''index.md''"
  "HasSuffix ''content/blog/index.md'' ''index.md''"
  "\<not> HasSuffix ''content/blog/first.md'' ''index.md''"
  by (simp_all add: HasSuffix_def)

theorem home_page_is_last_index_md_witness:
  "fst (classify [samplePage ''content/blog/first.md'', samplePage ''content/notes/index.md'']) = Some 1
   \<and> URL (samplePage ''content/notes/index.md'') = ''/notes/index.html''
   \<and> setHomeURL [samplePage ''content/blog/first.md'', samplePage ''content/notes/index.md''] 1 ! 1
       = (samplePage ''content/notes/index.md'')\<lparr>URL := ''/index.html''\<rparr>
   \<and> snd (classify [samplePage ''content/blog/first.md'', samplePage ''content/notes/index.md''])
       = [samplePage ''content/blog/first.md'']"
proof -
  let ?ps = "[samplePage ''content/blog/first.md'', samplePage ''content/notes/index.md'']"
  have c: "fst (classify ?ps) = Some 1"
    by (simp add: classify_def samplePage_def HasSuffix_index_samples)
  have u: "URL (samplePage ''content/notes/index.md'') = ''/notes/index.html''"
    by (simp add: samplePage_def pathToURL_def TrimPrefix_def TrimSuffix_def HasPrefix_def
          HasSuffix_def)
  have b: "Contains ''content/blog/first.md'' ''/blog/''"
    by (simp add: Contains_def HasPrefix_def Let_def)
  have f: "filter (\<lambda>p. \<not> HasSuffix (Path p) ''index.md'' \<and> Contains (Path p) ''/blog/'') ?ps
             = [samplePage ''content/blog/first.md'']"
    by (simp add: samplePage_def HasSuffix_index_samples b)
  from home_page_is_last_index_md [of ?ps] c u f show ?thesis
    by simp
qed

text \<open>
  The claim as it was stated fails: with a page \<^verbatim>\<open>content/notes/index.md\<close> after
  \<^verbatim>\<open>content/index.md\<close> in the list, the home page is the former, not the page at the
  content root; and a page \<^verbatim>\<open>content/blog/index.md\<close> is classified as the home page and
  is not a blog post.
\<close>

theorem home_page_counterexample:
  "fst (classify [samplePage ''content/index.md'', samplePage ''content/notes/index.md'']) = Some 1
   \<and> fst (classify [samplePage ''content/blog/index.md'']) = Some 0
   \<and> snd (classify [samplePage ''content/blog/index.md'']) = []"
  by (simp add: classify_def samplePage_def HasSuffix_index_samples)

section \<open>The order of the blog posts\<close>











section \<open>URL derivation\<close>

text \<open>What holds of \<^verbatim>\<open>pathToURL\<close>: the result always ends with \<^verbatim>\<open>.html\<close>; a path under the
  content root that ends with \<^verbatim>\<open>.md\<close> in lower case loses the root and has the extension
  replaced; and applying the function to the path with the root already stripped gives the
  same URL.\<close>

lemma HasSuffix_append: "HasSuffix (s @ p) p"
  by (simp add: HasSuffix_def)

lemma pathToURL_ends_html: "HasSuffix (pathToURL path) ''.html''"
  unfolding pathToURL_def Let_def by (rule HasSuffix_append)

lemma TrimSuffix_append: "TrimSuffix (s @ p) p = s"
  by (simp add: TrimSuffix_def HasSuffix_def)

lemma pathToURL_md:
  "pathToURL (''content/'' @ stem @ ''.md'') = ''/'' @ stem @ ''.html''"
proof -
  have "TrimPrefix (''content/'' @ stem @ ''.md'') ''content'' = ''/'' @ stem @ ''.md''"
    by (simp add: TrimPrefix_def HasPrefix_def)
  moreover have "TrimSuffix ((''/'' @ stem) @ ''.md'') ''.md'' = ''/'' @ stem"
    by (rule TrimSuffix_append)
  ultimately show ?thesis by (simp add: pathToURL_def)
qed

lemma pathToURL_stripped:
  "pathToURL (TrimPrefix (''content/'' @ rest) ''content'') = pathToURL (''content/'' @ rest)"
  by (simp add: pathToURL_def TrimPrefix_def HasPrefix_def)

text \<open>
  C5. The discovery accepts the extension in any case, and \<^verbatim>\<open>pathToURL\<close> only removes
  \<^verbatim>\<open>.md\<close> in lower case: for the path \<^verbatim>\<open>content/blog/post.MD\<close>, which lies under the
  content root and is a Markdown file for the discovery, the extension is not replaced
  and the URL is \<^verbatim>\<open>/blog/post.MD.html\<close>.
\<close>

theorem pathToURL_upper_case_extension:
  "HasPrefix ''content/blog/post.MD'' ''content/''
   \<and> isMarkdown ''content/blog/post.MD''
   \<and> pathToURL ''content/blog/post.MD'' = ''/blog/post.MD.html''"
  by code_simp

section \<open>The build\<close>

lemma copyStatic_read:
  "readFile e ''static/styles.css'' = Inr content \<Longrightarrow>
   copyStatic e tr = tr @ [WriteFile ''public/styles.css'' content
                             (writeFile e ''public/styles.css'' content),
                           Println ''Copied: public/styles.css'']"
  by (simp add: copyStatic_def)

text \<open>
  C10. When the stylesheet can be read and writing it to \<^verbatim>\<open>public/styles.css\<close> fails, the
  error of the write is dropped: a build that has rendered the home page (if there is one),
  the posts and the blog index prints \<^verbatim>\<open>Copied: public/styles.css\<close> after the failed write
  and reaches its end. A failure to render the home page, a post or the blog index, by
  contrast, stops the build with an error message.
\<close>

theorem stylesheet_write_failure_ignored:
  assumes rd: "readFile e ''static/styles.css'' = Inr content"
    and wr: "writeFile e ''public/styles.css'' content = Some werr"
  shows
    "(\<forall>tr1 tr2 tr3.
        (case fst (classify pages) of
           None \<Rightarrow> (None, tr)
         | Some i \<Rightarrow> renderPage e homeTmpl (setHomeURL pages i ! i) ''public/index.html'' tr)
          = (None, tr1)
        \<and> renderPosts e postTmpl (sortSlice e lessDate (snd (classify pages))) tr1 = (None, tr2)
        \<and> renderBlogIndex e blogIndexTmpl (sortSlice e lessDate (snd (classify pages))) tr2
            = (None, tr3)
        \<longrightarrow> assembleAndRender e pages homeTmpl postTmpl blogIndexTmpl tr
              = (tr3 @ [WriteFile ''public/styles.css'' content (Some werr),
                        Println ''Copied: public/styles.css''], Completed))
     \<and> (\<forall>err tr1.
        (case fst (classify pages) of
           None \<Rightarrow> (None, tr)
         | Some i \<Rightarrow> renderPage e homeTmpl (setHomeURL pages i ! i) ''public/index.html'' tr)
          = (Some err, tr1)
        \<longrightarrow> assembleAndRender e pages homeTmpl postTmpl blogIndexTmpl tr
              = (tr1 @ [Println (''Error rendering home page: '' @ Error err)], Aborted))
     \<and> (\<forall>err tr1 tr2.
        (case fst (classify pages) of
           None \<Rightarrow> (None, tr)
         | Some i \<Rightarrow> renderPage e homeTmpl (setHomeURL pages i ! i) ''public/index.html'' tr)
          = (None, tr1)
        \<and> renderPosts e postTmpl (sortSlice e lessDate (snd (classify pages))) tr1
            = (Some err, tr2)
        \<longrightarrow> assembleAndRender e pages homeTmpl postTmpl blogIndexTmpl tr
              = (tr2 @ [Println (''Error rendering blog post: '' @ Error err)], Aborted))
     \<and> (\<forall>err tr1 tr2 tr3.
        (case fst (classify pages) of
           None \<Rightarrow> (None, tr)
         | Some i \<Rightarrow> renderPage e homeTmpl (setHomeURL pages i ! i) ''public/index.html'' tr)
          = (None, tr1)
        \<and> renderPosts e postTmpl (sortSlice e lessDate (snd (classify pages))) tr1 = (None, tr2)
        \<and> renderBlogIndex e blogIndexTmpl (sortSlice e lessDate (snd (classify pages))) tr2
            = (Some err, tr3)
        \<longrightarrow> assembleAndRender e pages homeTmpl postTmpl blogIndexTmpl tr
              = (tr3 @ [Println (''Error rendering blog index: '' @ Error err)], Aborted))"
proof -
  obtain h ps where cl: "classify pages = (h, ps)" by (cases "classify pages")
  have cs: "copyStatic e t = t @ [WriteFile ''public/styles.css'' content (Some werr),
                                  Println ''Copied: public/styles.css'']" for t
    using rd wr by (simp add: copyStatic_def)
  show ?thesis
    unfolding assembleAndRender_def cl Let_def prod.case fst_conv snd_conv
    by (simp add: cs)
qed

text \<open>The sample site, where the write of the stylesheet fails.\<close>

lemma generateHtml_sample:
  "generateHtml sampleEnv [''content/blog/hello.md'', ''content/index.md''] = Inr samplePages"
proof -
  have p1: "parseFrontmatter sampleUnmarshal sampleHello
              = Inr (\<lparr>fmTitle = ''Hello World'', fmDate = ''2025-01-17''\<rparr>, ''Body text'')"
    by (rule parse_sampleHello) (simp add: sampleUnmarshal_def zeroFrontmatter_def)
  have p2: "parseFrontmatter sampleUnmarshal ''# Welcome'' = Inr (zeroFrontmatter, ''# Welcome'')"
    by (simp add: parseFrontmatter_def HasPrefix_def)
  have u: "pathToURL ''content/blog/hello.md'' = ''/blog/hello.html''"
    "pathToURL ''content/index.md'' = ''/index.html''"
    by (simp_all add: pathToURL_def TrimPrefix_def TrimSuffix_def HasPrefix_def HasSuffix_def)
  have t: "extractTitle (\<lambda>s. s) ''content/index.md'' = ''index''"
    by (simp add: extractTitle_def Base_def TrimSuffix_def HasSuffix_def ReplaceAll_def)
  have l1: "loadPage sampleEnv ''content/blog/hello.md'' = Inr (samplePages ! 0)"
    by (simp add: loadPage_def sampleEnv_def p1 u timeParse_2025 samplePages_def)
  have l2: "loadPage sampleEnv ''content/index.md'' = Inr (samplePages ! 1)"
    by (simp add: loadPage_def sampleEnv_def p2 u t samplePages_def zeroFrontmatter_def)
  from l1 l2 show ?thesis
    by (simp add: generateHtml_def samplePages_def)
qed

lemma classify_sample: "classify samplePages = (Some 1, [samplePages ! 0])"
proof -
  have "HasSuffix ''content/index.md'' ''index.md''"
    "\<not> HasSuffix ''content/blog/hello.md'' ''index.md''"
    by (simp_all add: HasSuffix_def)
  moreover have "Contains ''content/blog/hello.md'' ''/blog/''"
    by (simp add: Contains_def HasPrefix_def Let_def)
  ultimately show ?thesis by (simp add: classify_def samplePages_def)
qed

lemma sample_io:
  "mkdirAll sampleEnv d = None" "create sampleEnv p = None" "execute sampleEnv t x = None"
  "parseFiles sampleEnv p = Inr p"
  "readFile sampleEnv ''static/styles.css'' = Inr ''body {}''"
  "writeFile sampleEnv p b = Some (Failure ''permission denied'')"
  "sortSlice sampleEnv = insertionSort"
  "statNotExist sampleEnv p = False"
  by (simp_all add: sampleEnv_def)

lemma sample_dirs:
  "filepathDir sampleEnv ''public/index.html'' = ''public''"
  "filepathDir sampleEnv ''public/blog/hello.html'' = ''public/blog''"
  by (simp_all add: sampleEnv_def)

theorem stylesheet_write_failure_ignored_witness:
  "readFile sampleEnv ''static/styles.css'' = Inr ''body {}''
   \<and> writeFile sampleEnv ''public/styles.css'' ''body {}'' = Some (Failure ''permission denied'')
   \<and> snd (build sampleEnv) = Completed
   \<and> (\<exists>tr3. fst (build sampleEnv)
               = tr3 @ [WriteFile ''public/styles.css'' ''body {}''
                          (Some (Failure ''permission denied'')),
                        Println ''Copied: public/styles.css''])"
proof -
  let ?tr = "[Println ''Warning: could not access content/private - permission denied'',
              Println ''Found markdown files:'', Println '' - content/blog/hello.md'',
              Println '' - content/index.md'']"
  let ?h = "''templates/home.html''"
  let ?p = "''templates/post.html''"
  let ?b = "''templates/blog_index.html''"
  have b: "build sampleEnv = assembleAndRender sampleEnv samplePages ?h ?p ?b ?tr"
    by (simp add: build_def findMarkdownFiles_sample loadAndRender_def generateHtml_sample
          sample_io)
  let ?tr1 = "?tr @ [MkdirAll ''public'' None, Create ''public/index.html'' None,
                     Execute ?h (PageData ((samplePages ! 1)\<lparr>URL := ''/index.html''\<rparr>))
                       ''public/index.html'' None,
                     Println ''Generated: public/index.html'']"
  let ?tr2 = "?tr1 @ [MkdirAll ''public/blog'' None, Create ''public/blog/hello.html'' None,
                      Execute ?p (PageData (samplePages ! 0)) ''public/blog/hello.html'' None,
                      Println ''Generated: public/blog/hello.html'']"
  let ?tr3 = "?tr2 @ [MkdirAll ''public/blog'' None, Create ''public/blog/index.html'' None,
                      Execute ?b (PostsData [samplePages ! 0]) ''public/blog/index.html'' None,
                      Println ''Generated: public/blog/index.html'']"
  have rd: "readFile sampleEnv ''static/styles.css'' = Inr ''body {}''"
    and wr: "writeFile sampleEnv ''public/styles.css'' ''body {}'' = Some (Failure ''permission denied'')"
    by (simp_all add: sample_io)
  have so: "sortSlice sampleEnv lessDate (snd (classify samplePages)) = [samplePages ! 0]"
    by (simp add: classify_sample sample_io insertionSort_def)
  have home: "(case fst (classify samplePages) of
                  None \<Rightarrow> (None, ?tr)
                | Some i \<Rightarrow> renderPage sampleEnv ?h (setHomeURL samplePages i ! i)
                             ''public/index.html'' ?tr)
               = (None, ?tr1)"
    unfolding classify_sample fst_conv option.case
    by (simp add: renderPage_def sample_io sample_dirs setHomeURL_def samplePages_def)
  have u: "URL (samplePages ! 0) = ''/blog/hello.html''" by (simp add: samplePages_def)
  have posts: "renderPosts sampleEnv ?p (sortSlice sampleEnv lessDate (snd (classify samplePages)))
                 ?tr1 = (None, ?tr2)"
    unfolding so by (simp add: renderPage_def sample_io sample_dirs u Let_def)
  have idx: "renderBlogIndex sampleEnv ?b (sortSlice sampleEnv lessDate (snd (classify samplePages)))
                 ?tr2 = (None, ?tr3)"
    unfolding so by (simp add: renderBlogIndex_def sample_io Let_def)
  from stylesheet_write_failure_ignored
         [OF rd wr, where pages = samplePages and tr = ?tr and homeTmpl = ?h
            and postTmpl = ?p and blogIndexTmpl = ?b]
       home posts idx
  have "assembleAndRender sampleEnv samplePages ?h ?p ?b ?tr
          = (?tr3 @ [WriteFile ''public/styles.css'' ''body {}''
                       (Some (Failure ''permission denied'')),
                     Println ''Copied: public/styles.css''], Completed)"
    by blast
  with b rd wr show ?thesis by simp
qed

section \<open>The order of the rendered posts\<close>









end
